theory Spec2Isabelle
  imports Complex_Main
begin

section \<open>Errors\<close>

text \<open>
  The script \<^verbatim>\<open>getdata.py\<close> has no error classes of its own: a failure is a Python
  exception that nothing catches, so it ends the run. Every exception the modelled part
  can raise is a constructor here, named after its class; the messages are not
  modelled, except for the \<^verbatim>\<open>ValueError\<close> the script raises itself (lines 88-90), which
  carries the three values its message interpolates: the pair
  \<^verbatim>\<open>(params["start_time"], params["end_time"])\<close>, the response content and the path of the
  configuration file. \<open>KeyError\<close> carries the missing key and \<open>AttributeError\<close> the
  missing attribute; \<open>RequestException\<close> stands for the exceptions of the HTTP
  transport. A value of the \<^verbatim>\<open>params\<close> dictionary is a string or a sequence of strings.
\<close>

datatype query_value = Str string | Seq "string list"

datatype error =
    KeyError string
  | TypeError
  | AttributeError string
  | ZeroDivisionError
  | OverflowError
  | OutOfBoundsDatetime
  | InvalidIndexError
  | RequestException
  | ValueError
  | ValueError_no_data "query_value \<times> query_value" string string

section \<open>Chunker: \<^verbatim>\<open>sliced_requests\<close> (line 58)\<close>

text \<open>
  \<^verbatim>\<open>np.arange(start, stop, step)\<close> on integers: a zero step raises; otherwise the
  result has \<open>max 0 \<lceil>(stop - start) / step\<rceil>\<close> elements \<open>start + i * step\<close>.
\<close>

definition np_arange :: "int \<Rightarrow> int \<Rightarrow> int \<Rightarrow> error + int list" where
  "np_arange start stop step =
     (if step = 0 then Inl ZeroDivisionError
      else Inr (map (\<lambda>i. start + int i * step)
                  [0 ..< nat (- ((start - stop) div step))]))"

text \<open>
  A Python slice \<^verbatim>\<open>xs[st:end]\<close>: a negative bound counts from the end, both bounds are
  clamped to the length, and an empty range gives the empty list.
\<close>

definition py_slice_bound :: "nat \<Rightarrow> int \<Rightarrow> nat" where
  "py_slice_bound n i = (if i < 0 then nat (max (i + int n) 0) else min (nat i) n)"

definition py_slice :: "'a list \<Rightarrow> int \<Rightarrow> int \<Rightarrow> 'a list" where
  "py_slice xs st en =
     (let s = py_slice_bound (length xs) st; e = py_slice_bound (length xs) en
      in take (e - s) (drop s xs))"

text \<open>
  \<^verbatim>\<open>np.array_split(ary, indices)\<close> with a sequence of indices: the division points are
  \<^verbatim>\<open>[0] + list(indices) + [Ntotal]\<close>, and section \<open>i\<close> is the slice between division
  points \<open>i\<close> and \<open>i + 1\<close>, for \<open>i\<close> in \<^verbatim>\<open>range(len(indices) + 1)\<close>.
\<close>

definition array_split :: "'a list \<Rightarrow> int list \<Rightarrow> 'a list list" where
  "array_split ary indices =
     (let Nsections = length indices + 1;
          div_points = [0] @ indices @ [int (length ary)]
      in map (\<lambda>i. py_slice ary (div_points ! i) (div_points ! (i + 1))) [0 ..< Nsections])"

text \<open>
  Line 58: \<^verbatim>\<open>np.array_split(requested_points, np.arange(chunk_size, len(requested_points), chunk_size))\<close>.
\<close>

definition sliced_requests :: "int \<Rightarrow> 'a list \<Rightarrow> error + 'a list list" where
  "sliced_requests chunk_size requested_points =
     (case np_arange chunk_size (int (length requested_points)) chunk_size of
        Inl e \<Rightarrow> Inl e
      | Inr indices \<Rightarrow> Inr (array_split requested_points indices))"

section \<open>IdentifierExtractor: \<^verbatim>\<open>requested_points\<close> (lines 54-56)\<close>

text \<open>
  A cell of a column of the data frame that \<^verbatim>\<open>pd.read_csv\<close> returns:
  \<^item> \<open>NaN\<close>, a missing value;
  \<^item> \<open>Int64 n\<close>, an integer (a column with no missing row and only integers is
    \<^verbatim>\<open>int64\<close>);
  \<^item> \<open>Float s m e\<close>, the finite double of sign \<open>s\<close> (\<open>True\<close> for minus) and magnitude
    \<open>m * 2 ^ e\<close>: \<^verbatim>\<open>101.7\<close> is \<open>Float False 7156501282868429 (-46)\<close>, and the negative
    zero is \<open>Float True 0 0\<close>;
  \<^item> \<open>Infinity s\<close>, an infinite double (the text \<^verbatim>\<open>inf\<close> in the file);
  \<^item> \<open>Text t\<close>, a string (a column with a cell that is no number holds strings).
\<close>

datatype cell = NaN | Int64 int | Float bool nat int | Infinity bool | Text string



text \<open>
  The data frame of the identifier file: its columns by name, in file order.
\<close>

type_synonym csv_frame = "(string \<times> cell list) list"

text \<open>\<^verbatim>\<open>Series.dropna()\<close>: the cells that are not missing, in row order.\<close>

definition dropna :: "cell list \<Rightarrow> cell list" where
  "dropna col = filter (\<lambda>c. c \<noteq> NaN) col"

text \<open>
  The value \<open>m * 2 ^ e\<close> rounded to the nearest integer, a tie going to the even
  neighbour: the rounding of the format code \<^verbatim>\<open>.0f\<close>, which rounds the exact binary
  value correctly.
\<close>

definition round_half_even :: "int \<Rightarrow> int \<Rightarrow> int" where
  "round_half_even m e =
     (if 0 \<le> e then m * 2 ^ nat e
      else let d = 2 ^ nat (- e); q = m div d; r = m mod d
           in if d < 2 * r \<or> (2 * r = d \<and> odd q) then q + 1 else q)"

text \<open>The decimal digits of a natural number, as \<^verbatim>\<open>str\<close> writes them.\<close>

fun decimal :: "nat \<Rightarrow> string" where
  "decimal n =
     (if n < 10 then [''0123456789'' ! n]
      else decimal (n div 10) @ [''0123456789'' ! (n mod 10)])"

declare decimal.simps [simp del]

text \<open>
  \<^verbatim>\<open>'{:.0f}'.format(x)\<close> for a finite double of sign \<open>s\<close> and magnitude \<open>m * 2 ^ e\<close>: a
  minus sign for a negative sign (kept when the value rounds to zero:
  \<^verbatim>\<open>'{:.0f}'.format(-0.4)\<close> and \<^verbatim>\<open>'{:.0f}'.format(-0.0)\<close> are \<^verbatim>\<open>'-0'\<close>), then the digits
  of the rounded magnitude; no decimal point and no exponent.
\<close>

definition format_0f :: "bool \<Rightarrow> nat \<Rightarrow> int \<Rightarrow> string" where
  "format_0f s m e = (if s then ''-'' else []) @ decimal (nat (round_half_even (int m) e))"

text \<open>The number of binary digits of a natural number (\<^verbatim>\<open>int.bit_length\<close>).\<close>

fun bit_length :: "nat \<Rightarrow> nat" where
  "bit_length n = (if n = 0 then 0 else Suc (bit_length (n div 2)))"

declare bit_length.simps [simp del]

text \<open>
  The code \<^verbatim>\<open>f\<close> on a Python \<^verbatim>\<open>int\<close> formats \<^verbatim>\<open>float(n)\<close>: the integer is first
  converted to the nearest double, which keeps 53 binary digits (a tie goes to the even
  one). The result is the sign, the mantissa and the exponent of that double.
\<close>

definition float_of_int :: "int \<Rightarrow> bool \<times> nat \<times> int" where
  "float_of_int n =
     (let a = nat \<bar>n\<bar>; k = bit_length a - 53
      in (n < 0, nat (round_half_even (int a) (- int k)), int k))"

text \<open>
  \<^verbatim>\<open>'{:.0f}'.format\<close> applied to one cell. An infinity prints as \<^verbatim>\<open>inf\<close>, a missing
  value would print as \<^verbatim>\<open>nan\<close>, and a string raises \<^verbatim>\<open>ValueError\<close> (unknown format
  code for \<^verbatim>\<open>str\<close>).
\<close>

fun format_cell :: "cell \<Rightarrow> error + string" where
  "format_cell (Float s m e) = Inr (format_0f s m e)"
| "format_cell (Int64 n) = (case float_of_int n of (s, m, e) \<Rightarrow> Inr (format_0f s m e))"
| "format_cell (Infinity s) = Inr ((if s then ''-'' else []) @ ''inf'')"
| "format_cell NaN = Inr ''nan''"
| "format_cell (Text t) = Inl ValueError"

text \<open>\<^verbatim>\<open>Series.map(f)\<close>: the function on every cell in row order; the first exception ends it.\<close>

fun series_map :: "('a \<Rightarrow> error + 'b) \<Rightarrow> 'a list \<Rightarrow> error + 'b list" where
  "series_map f [] = Inr []"
| "series_map f (x # xs) =
     (case f x of
        Inl err \<Rightarrow> Inl err
      | Inr y \<Rightarrow> (case series_map f xs of Inl err \<Rightarrow> Inl err | Inr ys \<Rightarrow> Inr (y # ys)))"

text \<open>
  Line 56: \<^verbatim>\<open>df["FromMwAnalogPointRef"].dropna().map('{:.0f}'.format).to_numpy()\<close>. A
  frame without the column raises \<^verbatim>\<open>KeyError\<close>. \<^verbatim>\<open>dropna\<close> keeps the infinities.
\<close>

definition requested_points :: "csv_frame \<Rightarrow> error + string list" where
  "requested_points df =
     (case map_of df ''FromMwAnalogPointRef'' of
        None \<Rightarrow> Inl (KeyError ''FromMwAnalogPointRef'')
      | Some col \<Rightarrow> series_map format_cell (dropna col))"

text \<open>The number a string of decimal digits denotes (the specification's reading).\<close>

definition digit_value :: "char \<Rightarrow> nat" where
  "digit_value c = of_char c - 48"

definition decimal_value :: "string \<Rightarrow> nat" where
  "decimal_value ds = foldl (\<lambda>a c. 10 * a + digit_value c) 0 ds"

section \<open>Calendar and timestamp text\<close>

text \<open>
  Instants are integers counted from 1970-01-01T00:00:00: microseconds for a
  \<^verbatim>\<open>datetime\<close>, nanoseconds for a \<^verbatim>\<open>pd.Timestamp\<close>. The calendar is the proleptic
  Gregorian one of \<^verbatim>\<open>datetime\<close>; the script only meets years that \<^verbatim>\<open>datetime\<close>
  supports (1 to 9999).
\<close>

text \<open>The civil date \<open>(year, month, day)\<close> of a day number, day 0 being 1970-01-01.\<close>

definition civil_from_days :: "int \<Rightarrow> int \<times> int \<times> int" where
  "civil_from_days days =
     (let z = days + 719468;
          era = z div 146097;
          doe = z - era * 146097;
          yoe = (doe - doe div 1460 + doe div 36524 - doe div 146096) div 365;
          doy = doe - (365 * yoe + yoe div 4 - yoe div 100);
          mp = (5 * doy + 2) div 153;
          d = doy - (153 * mp + 2) div 5 + 1;
          m = (if mp < 10 then mp + 3 else mp - 9);
          y = yoe + era * 400
      in (if m \<le> 2 then y + 1 else y, m, d))"

text \<open>The day number of a civil date.\<close>

definition days_from_civil :: "int \<Rightarrow> int \<Rightarrow> int \<Rightarrow> int" where
  "days_from_civil y m d =
     (let y' = (if m \<le> 2 then y - 1 else y);
          era = y' div 400;
          yoe = y' - era * 400;
          doy = (153 * (if 2 < m then m - 3 else m + 9) + 2) div 5 + d - 1;
          doe = yoe * 365 + yoe div 4 - yoe div 100 + doy
      in era * 146097 + doe - 719468)"

text \<open>A number written with at least \<open>w\<close> digits, zero-padded on the left (\<^verbatim>\<open>%0wd\<close>).\<close>

definition zero_padded :: "nat \<Rightarrow> int \<Rightarrow> string" where
  "zero_padded w n = replicate (w - length (decimal (nat n))) (CHR ''0'') @ decimal (nat n)"

text \<open>
  \<^verbatim>\<open>isoformat(timespec="seconds")\<close> of a timestamp without time zone, given as whole
  seconds since the epoch: \<^verbatim>\<open>YYYY-MM-DDTHH:MM:SS\<close>.
\<close>

definition isoformat_seconds :: "int \<Rightarrow> string" where
  "isoformat_seconds secs =
     (let days = secs div 86400;
          rem = secs mod 86400;
          (y, m, d) = civil_from_days days
      in zero_padded 4 y @ ''-'' @ zero_padded 2 m @ ''-'' @ zero_padded 2 d @ ''T''
         @ zero_padded 2 (rem div 3600) @ '':'' @ zero_padded 2 (rem mod 3600 div 60)
         @ '':'' @ zero_padded 2 (rem mod 60))"

text \<open>
  \<^verbatim>\<open>Timestamp.isoformat(timespec="seconds")\<close> on a nanosecond value: the components
  below the second are cut off, not rounded.
\<close>

definition isoformat :: "int \<Rightarrow> string" where
  "isoformat ns = isoformat_seconds (ns div 1000000000)"

section \<open>TimeWindowResolver: \<^verbatim>\<open>params\<close> (lines 62-69)\<close>

text \<open>
  \<^verbatim>\<open>Timestamp.round("5T")\<close> on a nanosecond value: pandas rounds to the nearest multiple
  of the unit (five minutes in nanoseconds, an even number), and a value half way goes
  to the multiple with the even quotient.
\<close>

definition five_minutes :: int where
  "five_minutes = 300000000000"

definition round_5T :: "int \<Rightarrow> int" where
  "round_5T ns =
     (let unit = five_minutes;
          quotient = ns div unit;
          remainder = ns mod unit
      in if unit div 2 < remainder \<or> (remainder = unit div 2 \<and> odd quotient)
         then (quotient + 1) * unit else quotient * unit)"

text \<open>
  Lines 63-65: the instant \<^verbatim>\<open>utcnow() - timedelta(minutes=timedelta)\<close> (microseconds),
  as a \<^verbatim>\<open>pd.Timestamp\<close> (nanoseconds), rounded. \<open>now\<close> is the reading of the clock.
  \<^verbatim>\<open>timedelta\<close> holds at most 999999999 days and \<^verbatim>\<open>datetime\<close> the years 1 to 9999
  (\<^verbatim>\<open>OverflowError\<close> otherwise); a \<^verbatim>\<open>pd.Timestamp\<close> holds a signed 64-bit count of
  nanoseconds, as in pandas 1 (\<^verbatim>\<open>OutOfBoundsDatetime\<close> otherwise).
\<close>

definition datetime_min :: int where
  "datetime_min = - 62135596800000000"

definition datetime_max :: int where
  "datetime_max = 253402300799999999"

definition timestamp_min :: int where
  "timestamp_min = - 9223372036854775807"

definition timestamp_max :: int where
  "timestamp_max = 9223372036854775807"

definition start_instant :: "int \<Rightarrow> int \<Rightarrow> error + int" where
  "start_instant now timedelta =
     (if timedelta * 60 div 86400 < - 999999999 \<or> 999999999 < timedelta * 60 div 86400
      then Inl OverflowError
      else let dt = now - timedelta * 60 * 1000000 in
      if dt < datetime_min \<or> datetime_max < dt then Inl OverflowError
      else if dt * 1000 < timestamp_min \<or> timestamp_max < dt * 1000 then Inl OutOfBoundsDatetime
      else let rounded = round_5T (dt * 1000) in
      if rounded < timestamp_min \<or> timestamp_max < rounded then Inl OutOfBoundsDatetime
      else Inr rounded)"

text \<open>The value of \<^verbatim>\<open>params["start_time"]\<close>: the text of that instant.\<close>

definition start_time :: "int \<Rightarrow> int \<Rightarrow> error + string" where
  "start_time now timedelta =
     (case start_instant now timedelta of
        Inl err \<Rightarrow> Inl err
      | Inr rounded \<Rightarrow> Inr (isoformat rounded))"


text \<open>
  The specification's "second-precision ISO-8601 text without fractional seconds": a
  date of digits and hyphens, then \<^verbatim>\<open>THH:MM:SS\<close>, and nothing after the seconds.
\<close>

definition is_digit :: "char \<Rightarrow> bool" where
  "is_digit c = (c \<in> set ''0123456789'')"



section \<open>Data frames and ResultMerger: \<^verbatim>\<open>endresult\<close> (lines 96-102)\<close>

text \<open>
  A \<^verbatim>\<open>pd.DataFrame\<close>: the row labels, the name of the index, and the columns in order,
  each with its name and one cell per row label. Column names may repeat.
\<close>

record frame =
  index :: "string list"
  index_name :: "string option"
  columns :: "(string \<times> cell list) list"

text \<open>
  The invariant of a frame built by \<^verbatim>\<open>pd.DataFrame\<close> from a JSON value: the row labels
  are distinct (they are keys of a JSON object) and every column has one cell per label.
\<close>

definition wf_frame :: "frame \<Rightarrow> bool" where
  "wf_frame f =
     (distinct (index f) \<and> list_all (\<lambda>col. length (snd col) = length (index f)) (columns f))"

text \<open>The cell of a column at a row label; \<open>None\<close> when the frame has no such row.\<close>

definition cell_at :: "string list \<Rightarrow> string \<times> cell list \<Rightarrow> string \<Rightarrow> cell option" where
  "cell_at idx col label = map_of (zip idx (snd col)) label"

text \<open>
  The union of several indexes, in order of first appearance (\<^verbatim>\<open>sort=False\<close>, the
  default of \<^verbatim>\<open>pd.concat\<close>).
\<close>

definition union_indexes :: "string list list \<Rightarrow> string list" where
  "union_indexes indexes =
     foldl (\<lambda>acc label. if label \<in> set acc then acc else acc @ [label]) [] (concat indexes)"

text \<open>
  A column aligned to a new index: the cell of each label, and the missing value where
  the column has no such label.
\<close>

definition reindex :: "string list \<Rightarrow> string list \<Rightarrow> string \<times> cell list \<Rightarrow> string \<times> cell list" where
  "reindex new_index idx col =
     (fst col, map (\<lambda>label. case cell_at idx col label of None \<Rightarrow> NaN | Some c \<Rightarrow> c) new_index)"

text \<open>
  Line 96: \<^verbatim>\<open>pd.concat(results, axis=1)\<close>, an outer join on the row labels. An empty list
  raises \<^verbatim>\<open>ValueError\<close>. Frames whose indexes are all equal are put side by side as
  they are; otherwise every frame is aligned to the union of the indexes, which pandas
  refuses (\<^verbatim>\<open>InvalidIndexError\<close>) when an index has a repeated label.
\<close>

definition pd_concat :: "frame list \<Rightarrow> error + frame" where
  "pd_concat objs =
     (case objs of
        [] \<Rightarrow> Inl ValueError
      | first # _ \<Rightarrow>
          if list_all (\<lambda>f. index f = index first) objs
          then Inr \<lparr>index = index first, index_name = None,
                    columns = concat (map columns objs)\<rparr>
          else if list_ex (\<lambda>f. \<not> distinct (index f)) objs then Inl InvalidIndexError
          else let merged = union_indexes (map index objs)
               in Inr \<lparr>index = merged, index_name = None,
                        columns = concat (map (\<lambda>f. map (reindex merged (index f)) (columns f)) objs)\<rparr>)"

text \<open>
  A time zone of a \<^verbatim>\<open>DatetimeIndex\<close>: a fixed offset from UTC in seconds, as parsed from
  a timestamp text, or a named zone of the time zone database. The database is not part
  of the script; it is a parameter \<open>tzdb\<close> giving, for a zone name and an instant (in
  nanoseconds, UTC), the offset in seconds.
\<close>

datatype tzinfo = Fixed_offset int | Zone string

fun utcoffset :: "(string \<Rightarrow> int \<Rightarrow> int) \<Rightarrow> tzinfo \<Rightarrow> int \<Rightarrow> int" where
  "utcoffset tzdb (Fixed_offset seconds) instant = seconds"
| "utcoffset tzdb (Zone name) instant = tzdb name instant"

text \<open>
  What \<^verbatim>\<open>pd.to_datetime\<close> returns for an index of texts: a \<^verbatim>\<open>DatetimeIndex\<close> without
  time zone (wall-clock nanoseconds), one with a time zone (UTC nanoseconds), or, when
  the texts do not agree on the offset, a plain \<^verbatim>\<open>Index\<close> of objects.
\<close>

datatype datetime_index =
    Naive "int list"
  | Aware tzinfo "int list"
  | Object_index

text \<open>The number of days of a month.\<close>

definition days_in_month :: "int \<Rightarrow> int \<Rightarrow> int" where
  "days_in_month y m =
     (if m = 2 then (if y mod 4 = 0 \<and> (y mod 100 \<noteq> 0 \<or> y mod 400 = 0) then 29 else 28)
      else if m = 4 \<or> m = 6 \<or> m = 9 \<or> m = 11 then 30 else 31)"

text \<open>
  The end of a timestamp text: nothing (no time zone), \<^verbatim>\<open>Z\<close>, or \<^verbatim>\<open>+HH:MM\<close> /
  \<^verbatim>\<open>-HH:MM\<close>. The result is the offset in seconds, if the text has one.
\<close>

fun parse_offset :: "string \<Rightarrow> int option option" where
  "parse_offset [] = Some None"
| "parse_offset [z] = (if z = CHR ''Z'' then Some (Some 0) else None)"
| "parse_offset [sign, h1, h2, c, m1, m2] =
     (if (sign = CHR ''+'' \<or> sign = CHR ''-'') \<and> c = CHR '':'' \<and> list_all is_digit [h1, h2, m1, m2]
            \<and> decimal_value [h1, h2] \<le> 23 \<and> decimal_value [m1, m2] \<le> 59
      then let seconds = int (decimal_value [h1, h2]) * 3600 + int (decimal_value [m1, m2]) * 60
           in Some (Some (if sign = CHR ''-'' then - seconds else seconds))
      else None)"
| "parse_offset _ = None"

text \<open>
  The timestamp texts the model reads: ISO-8601 \<^verbatim>\<open>YYYY-MM-DDTHH:MM:SS\<close> with an optional
  offset. The result is the wall-clock time in seconds since the epoch and the offset;
  \<open>None\<close> stands for a text \<^verbatim>\<open>pd.to_datetime\<close> cannot read. (pandas reads more
  formats than this one; they are outside the model.)
\<close>

definition parse_timestamp :: "string \<Rightarrow> (int \<times> int option) option" where
  "parse_timestamp s =
     (if length s < 19 then None
      else if s ! 4 = CHR ''-'' \<and> s ! 7 = CHR ''-'' \<and> s ! 10 = CHR ''T''
              \<and> s ! 13 = CHR '':'' \<and> s ! 16 = CHR '':''
              \<and> list_all is_digit (take 4 s @ take 2 (drop 5 s) @ take 2 (drop 8 s)
                    @ take 2 (drop 11 s) @ take 2 (drop 14 s) @ take 2 (drop 17 s))
      then let y = int (decimal_value (take 4 s));
               mo = int (decimal_value (take 2 (drop 5 s)));
               d = int (decimal_value (take 2 (drop 8 s)));
               h = int (decimal_value (take 2 (drop 11 s)));
               mi = int (decimal_value (take 2 (drop 14 s)));
               sec = int (decimal_value (take 2 (drop 17 s)))
           in if 1 \<le> mo \<and> mo \<le> 12 \<and> 1 \<le> d \<and> d \<le> days_in_month y mo
                 \<and> h \<le> 23 \<and> mi \<le> 59 \<and> sec \<le> 59
              then (case parse_offset (drop 19 s) of
                      None \<Rightarrow> None
                    | Some offset \<Rightarrow>
                        Some (days_from_civil y mo d * 86400 + h * 3600 + mi * 60 + sec, offset))
              else None
      else None)"

text \<open>
  \<^verbatim>\<open>pd.to_datetime(index)\<close> (line 98). A text it cannot read raises \<^verbatim>\<open>ValueError\<close>,
  and an instant outside the 64-bit count of nanoseconds raises
  \<^verbatim>\<open>OutOfBoundsDatetime\<close>.
\<close>

definition in_bounds :: "int \<Rightarrow> bool" where
  "in_bounds ns = (timestamp_min \<le> ns \<and> ns \<le> timestamp_max)"

definition to_datetime :: "string list \<Rightarrow> error + datetime_index" where
  "to_datetime labels =
     (case those (map parse_timestamp labels) of
        None \<Rightarrow> Inl ValueError
      | Some stamps \<Rightarrow>
          if list_all (\<lambda>stamp. snd stamp = None) stamps
          then (let walls = map (\<lambda>stamp. fst stamp * 1000000000) stamps
                in if list_all in_bounds walls then Inr (Naive walls)
                   else Inl OutOfBoundsDatetime)
          else (case stamps of
                  (_, Some offset) # _ \<Rightarrow>
                    if list_all (\<lambda>stamp. snd stamp = Some offset) stamps
                    then (let instants = map (\<lambda>stamp. (fst stamp - offset) * 1000000000) stamps
                          in if list_all in_bounds instants
                             then Inr (Aware (Fixed_offset offset) instants)
                             else Inl OutOfBoundsDatetime)
                    else Inr Object_index
                | _ \<Rightarrow> Inr Object_index))"

text \<open>
  \<^verbatim>\<open>.tz_convert(zone)\<close>: the same instants in another zone. An index without time zone
  raises \<^verbatim>\<open>TypeError\<close>; a plain \<^verbatim>\<open>Index\<close> has no such method.
\<close>

fun tz_convert :: "datetime_index \<Rightarrow> string \<Rightarrow> error + datetime_index" where
  "tz_convert (Aware tz instants) zone = Inr (Aware (Zone zone) instants)"
| "tz_convert (Naive walls) zone =
     Inl TypeError"
| "tz_convert Object_index zone = Inl (AttributeError ''tz_convert'')"

text \<open>
  \<^verbatim>\<open>.tz_localize(None)\<close>: the time zone is removed and the local wall-clock time of
  each instant is kept.
\<close>

fun tz_localize_None :: "(string \<Rightarrow> int \<Rightarrow> int) \<Rightarrow> datetime_index \<Rightarrow> error + datetime_index" where
  "tz_localize_None tzdb (Aware tz instants) =
     Inr (Naive (map (\<lambda>instant. instant + utcoffset tzdb tz instant * 1000000000) instants))"
| "tz_localize_None tzdb (Naive walls) = Inr (Naive walls)"
| "tz_localize_None tzdb Object_index = Inl (AttributeError ''tz_localize'')"

text \<open>The offset text \<^verbatim>\<open>+HH:MM\<close> that \<^verbatim>\<open>isoformat\<close> appends for a time zone.\<close>

definition offset_text :: "int \<Rightarrow> string" where
  "offset_text seconds =
     (if seconds < 0 then ''-'' else ''+'')
     @ zero_padded 2 (\<bar>seconds\<bar> div 3600) @ '':'' @ zero_padded 2 (\<bar>seconds\<bar> mod 3600 div 60)"

text \<open>
  Line 100: \<^verbatim>\<open>index.map(lambda x: x.isoformat(timespec='seconds'))\<close>. A timestamp with
  a time zone is written with its offset; a plain \<^verbatim>\<open>Index\<close> of texts has no
  \<^verbatim>\<open>isoformat\<close>.
\<close>

fun index_isoformat :: "(string \<Rightarrow> int \<Rightarrow> int) \<Rightarrow> datetime_index \<Rightarrow> error + string list" where
  "index_isoformat tzdb (Naive walls) = Inr (map isoformat walls)"
| "index_isoformat tzdb (Aware tz instants) =
     Inr (map (\<lambda>instant. isoformat (instant + utcoffset tzdb tz instant * 1000000000)
                          @ offset_text (utcoffset tzdb tz instant)) instants)"
| "index_isoformat tzdb Object_index = Inl (AttributeError ''isoformat'')"

text \<open>
  Lines 98-102 on the merged frame: the index is parsed, converted to
  \<^verbatim>\<open>Europe/Tallinn\<close>, stripped of its time zone, written as text, and named.
\<close>

definition endresult_index :: "(string \<Rightarrow> int \<Rightarrow> int) \<Rightarrow> frame \<Rightarrow> error + frame" where
  "endresult_index tzdb merged =
     (case to_datetime (index merged) of
        Inl err \<Rightarrow> Inl err
      | Inr parsed \<Rightarrow>
     (case tz_convert parsed ''Europe/Tallinn'' of
        Inl err \<Rightarrow> Inl err
      | Inr converted \<Rightarrow>
     (case tz_localize_None tzdb converted of
        Inl err \<Rightarrow> Inl err
      | Inr localized \<Rightarrow>
     (case index_isoformat tzdb localized of
        Inl err \<Rightarrow> Inl err
      | Inr texts \<Rightarrow>
          Inr (merged\<lparr>index := texts, index_name := Some ''Europe/Tallinn''\<rparr>)))))"

text \<open>Lines 96-102.\<close>

definition endresult :: "(string \<Rightarrow> int \<Rightarrow> int) \<Rightarrow> frame list \<Rightarrow> error + frame" where
  "endresult tzdb results =
     (case pd_concat results of
        Inl err \<Rightarrow> Inl err
      | Inr merged \<Rightarrow> endresult_index tzdb merged)"

section \<open>QueryDispatcher and the run (lines 54-117)\<close>

text \<open>
  The values of the configuration file that the modelled part reads, and the path of
  the file itself.
\<close>

record config =
  chunk_size :: int
  timedelta :: int
  db_api :: string
  upload_path :: string
  branch :: string
  config_path :: string

text \<open>
  A Python dictionary with string keys: the items in insertion order. An assignment
  replaces the value of a key that is present and appends a new key.
\<close>

type_synonym 'v dict = "(string \<times> 'v) list"

fun dict_set :: "'v dict \<Rightarrow> string \<Rightarrow> 'v \<Rightarrow> 'v dict" where
  "dict_set [] key v = [(key, v)]"
| "dict_set ((k, old) # items) key v =
     (if k = key then (k, v) # items else (k, old) # dict_set items key v)"

definition dict_get :: "'v dict \<Rightarrow> string \<Rightarrow> error + 'v" where
  "dict_get items key = (case map_of items key of None \<Rightarrow> Inl (KeyError key) | Some v \<Rightarrow> Inr v)"

text \<open>
  The query of line 80: the endpoint and the parameters at that moment.
  \<^verbatim>\<open>urllib.parse.urlencode\<close> writes them as text, one \<^verbatim>\<open>key=value\<close> per string and per
  element of a sequence; the text is not modelled.
\<close>

record isr_query =
  endpoint :: string
  query_params :: "query_value dict"

text \<open>
  The answer of the data API: the raw content, and what \<^verbatim>\<open>.json()\<close> makes of it:
  \<open>None\<close> when it raises \<^verbatim>\<open>JSONDecodeError\<close>, else a JSON object with its members or
  another JSON value. The value of a member is a table (a JSON value that
  \<^verbatim>\<open>pd.DataFrame\<close> accepts, given as the frame it makes) or a value that
  \<^verbatim>\<open>pd.DataFrame\<close> rejects with \<^verbatim>\<open>ValueError\<close>.
\<close>

datatype json_value = JTable frame | JRejected

datatype json_body = JObject "json_value dict" | JOther

record response =
  content :: string
  json :: "json_body option"

text \<open>
  What the run does to the outside: the queries sent to the data API and the upload.
  The diagnostic prints are left out.
\<close>

record upload_request =
  upload_to :: string
  upload_branch :: string
  commit_time :: int
  upload_content :: frame

datatype event = Http_get isr_query | Http_put upload_request

text \<open>
  The outside of one run: the readings of \<^verbatim>\<open>datetime.utcnow()\<close> (the \<open>k\<close>-th call
  returns \<open>utcnow k\<close>, in microseconds); the identifier file as lines 44-54 fetch and
  parse it, or the exception they raise; the data API (its answer to the \<open>k\<close>-th query
  sent, or the exception \<^verbatim>\<open>requests.get\<close> raises); the time zone database; and the
  exception, if any, that the upload of lines 106-117 raises.
\<close>

record world =
  utcnow :: "nat \<Rightarrow> int"
  source_file :: "error + csv_frame"
  isr_api :: "nat \<Rightarrow> isr_query \<Rightarrow> error + response"
  tz_database :: "string \<Rightarrow> int \<Rightarrow> int"
  upload_api :: "upload_request \<Rightarrow> error option"

text \<open>
  Lines 85-90: \<^verbatim>\<open>isr_response.json()["data"]\<close>. Only \<^verbatim>\<open>JSONDecodeError\<close> is caught and
  turned into the \<^verbatim>\<open>ValueError\<close> of line 88; a JSON object without \<^verbatim>\<open>data\<close> raises
  \<^verbatim>\<open>KeyError\<close>, and a JSON value that is no object raises \<^verbatim>\<open>TypeError\<close>.
\<close>

definition isr_response_data :: "config \<Rightarrow> query_value dict \<Rightarrow> response \<Rightarrow> error + json_value" where
  "isr_response_data cfg params isr_response =
     (case json isr_response of
        None \<Rightarrow>
          (case dict_get params ''start_time'' of
             Inl err \<Rightarrow> Inl err
           | Inr start \<Rightarrow>
          (case dict_get params ''end_time'' of
             Inl err \<Rightarrow> Inl err
           | Inr end \<Rightarrow>
               Inl (ValueError_no_data (start, end) (content isr_response) (config_path cfg))))
      | Some (JObject members) \<Rightarrow>
          (case map_of members ''data'' of
             None \<Rightarrow> Inl (KeyError ''data'')
           | Some data \<Rightarrow> Inr data)
      | Some JOther \<Rightarrow> Inl TypeError)"

text \<open>Line 93: \<^verbatim>\<open>pd.DataFrame(data)\<close>.\<close>

fun pd_DataFrame :: "json_value \<Rightarrow> error + frame" where
  "pd_DataFrame (JTable table) = Inr table"
| "pd_DataFrame JRejected = Inl ValueError"

text \<open>
  Lines 84-93 on the answer to one query: the exception \<^verbatim>\<open>requests.get\<close> raised, or
  the one raised on the response, or the table of line 93.
\<close>

definition answer_table :: "config \<Rightarrow> query_value dict \<Rightarrow> error + response \<Rightarrow> error + frame" where
  "answer_table cfg params answer =
     (case answer of
        Inl err \<Rightarrow> Inl err
      | Inr isr_response \<Rightarrow>
          (case isr_response_data cfg params isr_response of
             Inl err \<Rightarrow> Inl err
           | Inr data \<Rightarrow> pd_DataFrame data))"

text \<open>
  The state of the loop of lines 72-93: the dictionary \<^verbatim>\<open>params\<close>, the list
  \<^verbatim>\<open>results\<close>, and the events so far. An exception ends the run; it is returned with
  the events that happened before it.
\<close>

record loop_state =
  params :: "query_value dict"
  results :: "frame list"
  events :: "event list"

text \<open>One pass of the loop body, for the batch \<open>points\<close> at position \<open>batch_index\<close>.\<close>

definition loop_body :: "config \<Rightarrow> (nat \<Rightarrow> isr_query \<Rightarrow> error + response) \<Rightarrow> nat \<Rightarrow> string list
    \<Rightarrow> loop_state \<Rightarrow> (error \<times> event list) + loop_state" where
  "loop_body cfg api batch_index points st =
     (let params1 = dict_set (params st) ''scada_point'' (Seq points) in
      case (if map_of params1 ''end_time'' = None
            then (case dict_get params1 ''start_time'' of
                    Inl err \<Rightarrow> Inl err
                  | Inr start \<Rightarrow> Inr (dict_set params1 ''end_time'' start))
            else Inr params1) of
        Inl err \<Rightarrow> Inl (err, events st)
      | Inr params2 \<Rightarrow>
          let isr_query = \<lparr>endpoint = db_api cfg, query_params = params2\<rparr>;
              sent = events st @ [Http_get isr_query]
          in case answer_table cfg params2 (api batch_index isr_query) of
               Inl err \<Rightarrow> Inl (err, sent)
             | Inr table \<Rightarrow>
                 Inr \<lparr>params = params2, results = results st @ [table], events = sent\<rparr>)"

text \<open>The loop: \<^verbatim>\<open>for index, points in enumerate(sliced_requests)\<close>.\<close>

fun dispatch :: "config \<Rightarrow> (nat \<Rightarrow> isr_query \<Rightarrow> error + response) \<Rightarrow> nat \<Rightarrow> string list list
    \<Rightarrow> loop_state \<Rightarrow> (error \<times> event list) + loop_state" where
  "dispatch cfg api batch_index [] st = Inr st"
| "dispatch cfg api batch_index (points # rest) st =
     (case loop_body cfg api batch_index points st of
        Inl failure \<Rightarrow> Inl failure
      | Inr st' \<Rightarrow> dispatch cfg api (batch_index + 1) rest st')"

text \<open>
  The run from line 44 to line 117: the outcome (the exception that ended it, or the
  table that was uploaded) and the events. The clock is read for \<^verbatim>\<open>params\<close> (line 64)
  and again for the commit message (line 114).
\<close>

definition run :: "config \<Rightarrow> world \<Rightarrow> (error + frame) \<times> event list" where
  "run cfg w =
     (case source_file w of
        Inl err \<Rightarrow> (Inl err, [])
      | Inr df \<Rightarrow>
     (case requested_points df of
        Inl err \<Rightarrow> (Inl err, [])
      | Inr points \<Rightarrow>
     (case sliced_requests (chunk_size cfg) points of
        Inl err \<Rightarrow> (Inl err, [])
      | Inr batches \<Rightarrow>
     (case start_time (utcnow w 0) (timedelta cfg) of
        Inl err \<Rightarrow> (Inl err, [])
      | Inr start \<Rightarrow>
     (case dispatch cfg (isr_api w) 0 batches
             \<lparr>params = [(''start_time'', Str start)], results = [], events = []\<rparr> of
        Inl (err, sent) \<Rightarrow> (Inl err, sent)
      | Inr st \<Rightarrow>
     (case endresult (tz_database w) (results st) of
        Inl err \<Rightarrow> (Inl err, events st)
      | Inr table \<Rightarrow>
          let upload = \<lparr>upload_to = upload_path cfg, upload_branch = branch cfg,
                          commit_time = utcnow w 1, upload_content = table\<rparr>;
              sent = events st @ [Http_put upload]
          in (case upload_api w upload of
                Some err \<Rightarrow> (Inl err, sent)
              | None \<Rightarrow> (Inr table, sent))))))))"

text \<open>The queries among the events, in order, and whether anything was uploaded.\<close>

fun queries :: "event list \<Rightarrow> isr_query list" where
  "queries [] = []"
| "queries (Http_get q # evs) = q # queries evs"
| "queries (Http_put u # evs) = queries evs"

fun published :: "event list \<Rightarrow> bool" where
  "published [] = False"
| "published (Http_get q # evs) = published evs"
| "published (Http_put u # evs) = True"

text \<open>
  A dispatch fails when \<^verbatim>\<open>requests.get\<close> raises, or the body is not JSON, is not a
  JSON object, has no member \<^verbatim>\<open>data\<close>, or has one that \<^verbatim>\<open>pd.DataFrame\<close> rejects:
  the cases in which lines 84-93 raise.
\<close>

definition batch_fails :: "error + response \<Rightarrow> bool" where
  "batch_fails answer =
     (case answer of
        Inl err \<Rightarrow> True
      | Inr r \<Rightarrow>
          (case json r of
             None \<Rightarrow> True
           | Some JOther \<Rightarrow> True
           | Some (JObject members) \<Rightarrow>
               (case map_of members ''data'' of
                  None \<Rightarrow> True
                | Some JRejected \<Rightarrow> True
                | Some (JTable table) \<Rightarrow> False)))"

text \<open>
  The body of an answer is unusable in the sense of the specification when it is not
  well-formed JSON, or is a JSON object without the member \<^verbatim>\<open>data\<close>.
\<close>

definition body_malformed :: "error + response \<Rightarrow> bool" where
  "body_malformed answer = (case answer of Inl err \<Rightarrow> False | Inr r \<Rightarrow> json r = None)"

definition body_lacks_data :: "error + response \<Rightarrow> bool" where
  "body_lacks_data answer =
     (case answer of
        Inl err \<Rightarrow> False
      | Inr r \<Rightarrow>
          (case json r of
             Some (JObject members) \<Rightarrow> map_of members ''data'' = None
           | _ \<Rightarrow> False))"

definition body_content :: "error + response \<Rightarrow> string" where
  "body_content answer = (case answer of Inl err \<Rightarrow> [] | Inr r \<Rightarrow> content r)"

text \<open>
  The queries a run dispatched, in order; the answer of the data API to the \<open>k\<close>-th of
  them; and the outcome of the run.
\<close>

definition dispatched :: "config \<Rightarrow> world \<Rightarrow> isr_query list" where
  "dispatched cfg w = queries (snd (run cfg w))"

definition dispatch_answer :: "config \<Rightarrow> world \<Rightarrow> nat \<Rightarrow> error + response" where
  "dispatch_answer cfg w k = isr_api w k (dispatched cfg w ! k)"

definition outcome :: "config \<Rightarrow> world \<Rightarrow> error + frame" where
  "outcome cfg w = fst (run cfg w)"

section \<open>An example run\<close>

text \<open>
  The end-to-end scenario of the specification: five identifiers, a chunk size of two,
  hence three batches. The clock reads 2024-01-15T10:08:00 at line 64 and seven seconds
  more at each later reading; the data API answers the \<open>k\<close>-th query with one row per
  identifier (at 10:05 UTC); the zone database gives two hours for every zone.
\<close>

definition example_config :: config where
  "example_config =
     \<lparr>chunk_size = 2, timedelta = 5, db_api = ''https://isr.example/api'',
      upload_path = ''data/out.csv'', branch = ''main'', config_path = ''settings.cfg''\<rparr>"

definition example_table :: "nat \<Rightarrow> isr_query \<Rightarrow> frame" where
  "example_table k q =
     \<lparr>index = [''2024-01-15T10:05:00+00:00''], index_name = None,
      columns = (case map_of (query_params q) ''scada_point'' of
                   Some (Seq points) \<Rightarrow> map (\<lambda>p. (p, [Int64 (int k)])) points
                 | _ \<Rightarrow> [])\<rparr>"

definition example_answer :: "nat \<Rightarrow> isr_query \<Rightarrow> error + response" where
  "example_answer k q =
     Inr \<lparr>content = ''{data: [...]}'', json = Some (JObject [(''data'', JTable (example_table k q))])\<rparr>"

definition example_world :: world where
  "example_world =
     \<lparr>utcnow = (\<lambda>k. 1705313280000000 + int k * 7000000),
      source_file = Inr [(''FromMwAnalogPointRef'', [Int64 101, Int64 102, Int64 103, Int64 104, Int64 105])],
      isr_api = example_answer,
      tz_database = (\<lambda>zone instant. 7200),
      upload_api = (\<lambda>upload. None)\<rparr>"

text \<open>The same, with an answer to query \<open>n\<close> (counted from 0) that is not JSON.\<close>

definition unparsable_answer :: "error + response" where
  "unparsable_answer = Inr \<lparr>content = ''<html>Bad Gateway</html>'', json = None\<rparr>"

definition nth_unparsable :: "nat \<Rightarrow> world" where
  "nth_unparsable n =
     example_world\<lparr>isr_api := (\<lambda>k q. if k = n then unparsable_answer else example_answer k q)\<rparr>"



text \<open>The query of the example run for a batch.\<close>

definition example_query :: "string list \<Rightarrow> isr_query" where
  "example_query points =
     \<lparr>endpoint = ''https://isr.example/api'',
      query_params = [(''start_time'', Str ''2024-01-15T10:05:00''), (''scada_point'', Seq points),
                      (''end_time'', Str ''2024-01-15T10:05:00'')]\<rparr>"


section \<open>Properties of the Chunker\<close>

text \<open>
  The number \<open>k\<close> of indices that \<^verbatim>\<open>np.arange(n, L, n)\<close> returns satisfies
  \<open>k * n \<le> L \<le> (k + 1) * n\<close>, strictly on the left for a non-empty list.
\<close>

lemma arange_count_bounds:
  fixes n L :: int
  assumes "0 < n" "0 \<le> L"
  defines "k \<equiv> nat (- ((n - L) div n))"
  shows "int k * n \<le> L" and "L \<le> (int k + 1) * n" and "0 < L \<Longrightarrow> int k * n < L"
proof -
  define q where "q = (n - L) div n"
  have eq: "n - L = q * n + (n - L) mod n"
    unfolding q_def by (rule div_mult_mod_eq [symmetric])
  have "0 \<le> (n - L) mod n" using assms(1) by simp
  with eq have lo: "q * n \<le> n - L" by linarith
  have "(n - L) mod n < n" using assms(1) by simp
  with eq have hi: "n - L < q * n + n" by linarith
  have k: "int k = max 0 (- q)" by (simp add: k_def q_def)
  show "int k * n \<le> L"
  proof (cases "0 \<le> - q")
    case True
    then have "int k = - q" using k by simp
    then show ?thesis using hi by (simp add: algebra_simps)
  next
    case False
    then have "int k = 0" using k by simp
    then show ?thesis using assms(2) by simp
  qed
  have "- q \<le> int k" using k by simp
  then have "(- q + 1) * n \<le> (int k + 1) * n"
    using assms(1) by (simp add: mult_right_mono)
  moreover have "L \<le> (- q + 1) * n" using lo by (simp add: algebra_simps)
  ultimately show "L \<le> (int k + 1) * n" by linarith
  show "int k * n < L" if "0 < L"
  proof (cases "0 \<le> - q")
    case True
    then have "int k = - q" using k by simp
    then show ?thesis using hi by (simp add: algebra_simps)
  next
    case False
    then have "int k = 0" using k by simp
    then show ?thesis using that by simp
  qed
qed

lemma concat_take_drop:
  "concat (map (\<lambda>i. take m (drop (i * m) xs)) [0 ..< j]) = take (j * m) xs"
proof (induction j)
  case 0
  then show ?case by simp
next
  case (Suc j)
  have "take (j * m) xs @ take m (drop (j * m) xs) = take (j * m + m) xs"
    by (simp add: take_add)
  with Suc show ?case by (simp add: add.commute)
qed

lemma py_slice_nat:
  "py_slice xs (int a) (int b) =
     take (min b (length xs) - min a (length xs)) (drop (min a (length xs)) xs)"
  by (simp add: py_slice_def py_slice_bound_def Let_def)

lemma take_min_length: "take (min m (length ys)) ys = take m ys"
  by (cases "m \<le> length ys") (simp_all add: min_def)

lemma py_slice_chunk:
  assumes "a \<le> length xs"
  shows "py_slice xs (int a) (int (a + m)) = take m (drop a xs)"
proof -
  have "min (a + m) (length xs) - a = min m (length (drop a xs))"
    using assms by (auto simp add: min_def)
  moreover have "min a (length xs) = a"
    using assms by simp
  ultimately have "py_slice xs (int a) (int (a + m)) =
      take (min m (length (drop a xs))) (drop a xs)"
    unfolding py_slice_nat by simp
  then show ?thesis
    by (simp only: take_min_length)
qed

lemma py_slice_rest:
  assumes "a \<le> length xs" "length xs \<le> a + m"
  shows "py_slice xs (int a) (int (length xs)) = take m (drop a xs)"
proof -
  have "py_slice xs (int a) (int (length xs)) = take (length xs - a) (drop a xs)"
    unfolding py_slice_nat using assms by simp
  also have "\<dots> = take m (drop a xs)"
    using assms by simp
  finally show ?thesis .
qed

lemma div_points_nth:
  fixes n L :: int
  shows "i \<le> k \<Longrightarrow> ([0] @ map (\<lambda>i. n + int i * n) [0 ..< k] @ [L]) ! i = int i * n"
    and "([0] @ map (\<lambda>i. n + int i * n) [0 ..< k] @ [L]) ! Suc k = L"
  by (cases i; simp add: nth_append algebra_simps)+

text \<open>
  For a positive chunk size the sections are the consecutive windows of \<open>chunk_size\<close>
  elements; their number is \<open>k + 1\<close> where \<open>k\<close> is the number of indices
  \<^verbatim>\<open>np.arange\<close> returns.
\<close>

lemma sliced_requests_chunks:
  assumes "0 < n"
  obtains k where
    "sliced_requests n xs = Inr (map (\<lambda>i. take (nat n) (drop (i * nat n) xs)) [0 ..< Suc k])"
    "k * nat n \<le> length xs" "length xs \<le> k * nat n + nat n"
    "xs \<noteq> [] \<Longrightarrow> k * nat n < length xs"
proof -
  define k where "k = nat (- ((n - int (length xs)) div n))"
  define m where "m = nat n"
  have n: "n = int m" using assms by (simp add: m_def)
  have "int (k * m) \<le> int (length xs)"
    using arange_count_bounds(1) [OF assms, of "int (length xs)"]
    by (simp add: k_def n)
  then have klo: "k * m \<le> length xs"
    by (simp only: of_nat_le_iff)
  have "int (length xs) \<le> int (k * m + m)"
    using arange_count_bounds(2) [OF assms, of "int (length xs)"]
    by (simp add: k_def n algebra_simps)
  then have khi: "length xs \<le> k * m + m"
    by (simp only: of_nat_le_iff)
  let ?dp = "[0] @ map (\<lambda>i. n + int i * n) [0 ..< k] @ [int (length xs)]"
  have sect: "py_slice xs (?dp ! i) (?dp ! Suc i) = take m (drop (i * m) xs)"
    if "i < Suc k" for i
  proof (cases "i < k")
    case True
    then have "Suc i \<le> k" by simp
    then have "Suc i * m \<le> k * m" by (rule mult_le_mono1)
    then have le: "i * m \<le> length xs" using klo by simp
    have "?dp ! i = int i * n"
      using True by (intro div_points_nth(1)) simp
    then have a: "?dp ! i = int (i * m)" by (simp add: n)
    have "?dp ! Suc i = int (Suc i) * n"
      using True by (intro div_points_nth(1)) simp
    then have b: "?dp ! Suc i = int (i * m + m)" by (simp add: n algebra_simps)
    show ?thesis
      unfolding a b by (rule py_slice_chunk [OF le])
  next
    case False
    then have i: "i = k" using that by simp
    have "?dp ! k = int k * n"
      by (intro div_points_nth(1)) simp
    then have a: "?dp ! i = int (k * m)" by (simp add: n i)
    have b: "?dp ! Suc i = int (length xs)"
      unfolding i using div_points_nth(2) [of n k "int (length xs)"] by simp
    show ?thesis
      unfolding a b unfolding i by (rule py_slice_rest [OF klo khi])
  qed
  have ar: "np_arange n (int (length xs)) n = Inr (map (\<lambda>i. n + int i * n) [0 ..< k])"
    using assms by (simp add: np_arange_def k_def)
  have "array_split xs (map (\<lambda>i. n + int i * n) [0 ..< k]) =
      map (\<lambda>i. py_slice xs (?dp ! i) (?dp ! (i + 1))) [0 ..< Suc k]"
    by (simp add: array_split_def Let_def del: upt_Suc append.simps)
  also have "\<dots> = map (\<lambda>i. take m (drop (i * m) xs)) [0 ..< Suc k]"
    using sect by (intro map_cong [OF refl]) (simp del: upt_Suc append.simps)
  finally have "sliced_requests n xs =
      Inr (map (\<lambda>i. take (nat n) (drop (i * nat n) xs)) [0 ..< Suc k])"
    by (simp add: sliced_requests_def ar m_def del: upt_Suc)
  moreover have "k * m < length xs" if "xs \<noteq> []"
  proof -
    have "int (k * m) < int (length xs)"
      using arange_count_bounds(3) [OF assms, of "int (length xs)"] that
      by (simp add: k_def n)
    then show ?thesis by (simp only: of_nat_less_iff)
  qed
  ultimately show ?thesis
    using klo khi that unfolding m_def by blast
qed

lemma sliced_requests_empty:
  "0 < n \<Longrightarrow> sliced_requests n ([] :: 'a list) = Inr [[]]"
proof -
  assume n: "0 < n"
  have "n div n = 1" using n by simp
  then have "np_arange n 0 n = Inr []"
    using n by (simp add: np_arange_def)
  then show ?thesis
    by (simp add: sliced_requests_def array_split_def py_slice_def)
qed

text \<open>
  Claim C1. For every non-empty identifier list and every positive chunk size, line 58
  returns batches whose concatenation in order is the list, every batch is non-empty and
  no longer than the chunk size, at most one batch is shorter than the chunk size, and a
  chunk size of at least the length of the list gives the list as the single batch.
\<close>

theorem chunker_partition:
  assumes "ids \<noteq> []" and "0 < n"
  shows "\<exists>batches. sliced_requests n ids = Inr batches
           \<and> concat batches = ids
           \<and> (\<forall>b \<in> set batches. b \<noteq> [] \<and> int (length b) \<le> n)
           \<and> length (filter (\<lambda>b. int (length b) < n) batches) \<le> 1
           \<and> (int (length ids) \<le> n \<longrightarrow> batches = [ids])"
proof -
  define m where "m = nat n"
  have m: "0 < m" "n = int m" using assms(2) by (simp_all add: m_def)
  obtain k where
    eq: "sliced_requests n ids =
           Inr (map (\<lambda>i. take m (drop (i * m) ids)) [0 ..< Suc k])"
    and khi: "length ids \<le> k * m + m"
    and klo: "k * m < length ids"
  proof (rule sliced_requests_chunks [OF assms(2), of ids])
    fix k
    assume "sliced_requests n ids =
        Inr (map (\<lambda>i. take (nat n) (drop (i * nat n) ids)) [0 ..< Suc k])"
      and "length ids \<le> k * nat n + nat n"
      and "ids \<noteq> [] \<Longrightarrow> k * nat n < length ids"
    with assms(1) show thesis
      unfolding m_def [symmetric] by (intro that [of k]) simp_all
  qed
  let ?f = "\<lambda>i. take m (drop (i * m) ids)"
  let ?bs = "map ?f [0 ..< Suc k]"
  have "concat ?bs = take (Suc k * m) ids"
    by (rule concat_take_drop)
  moreover have "length ids \<le> Suc k * m"
    using khi by simp
  ultimately have cat: "concat ?bs = ids"
    by (simp only: take_all)
  have full: "length (?f i) = m" if "i < k" for i
  proof -
    from that have "Suc i \<le> k" by simp
    then have "Suc i * m \<le> k * m" by (rule mult_le_mono1)
    from this klo have "Suc i * m < length ids" by (rule le_less_trans)
    then have "m \<le> length ids - i * m" by simp
    then show ?thesis by (simp add: min_absorb2)
  qed
  have nonempty: "?f i \<noteq> []" if "i \<le> k" for i
  proof -
    from that have "i * m \<le> k * m" by (rule mult_le_mono1)
    from this klo have "i * m < length ids" by (rule le_less_trans)
    then have "drop (i * m) ids \<noteq> []" by simp
    with m(1) show ?thesis by (simp add: take_eq_Nil)
  qed
  have each: "\<forall>b \<in> set ?bs. b \<noteq> [] \<and> int (length b) \<le> n"
  proof
    fix b assume "b \<in> set ?bs"
    then have "b \<in> ?f ` {0 ..< Suc k}" by (simp only: set_map set_upt)
    then obtain i where "i \<in> {0 ..< Suc k}" "b = ?f i" by (rule imageE)
    then have "i \<le> k" "b = ?f i" by simp_all
    then show "b \<noteq> [] \<and> int (length b) \<le> n"
      using nonempty [of i] by (simp add: m(2))
  qed
  have "\<not> int (length b) < n" if "b \<in> set (map ?f [0 ..< k])" for b
  proof -
    from that have "b \<in> ?f ` {0 ..< k}" by (simp only: set_map set_upt)
    then obtain i where "i \<in> {0 ..< k}" "b = ?f i" by (rule imageE)
    then have "i < k" "b = ?f i" by simp_all
    then have "length b = m" using full [of i] by (simp only:)
    then show ?thesis by (simp add: m(2))
  qed
  then have "filter (\<lambda>b. int (length b) < n) (map ?f [0 ..< k]) = []"
    by (simp only: filter_empty_conv) blast
  moreover have "?bs = map ?f [0 ..< k] @ [?f k]"
    by simp
  ultimately have "filter (\<lambda>b. int (length b) < n) ?bs =
      filter (\<lambda>b. int (length b) < n) [?f k]"
    by (simp only: filter_append append_Nil)
  moreover have "length (filter (\<lambda>b. int (length b) < n) [?f k]) \<le> 1"
    by simp
  ultimately have short: "length (filter (\<lambda>b. int (length b) < n) ?bs) \<le> 1"
    by (simp only:)
  have one: "?bs = [ids]" if "int (length ids) \<le> n"
  proof -
    from that have le: "length ids \<le> m" by (simp add: m(2))
    have "k = 0"
    proof (rule ccontr)
      assume "k \<noteq> 0"
      then have "1 * m \<le> k * m" by (intro mult_le_mono1) simp
      with klo le show False by simp
    qed
    then show ?thesis using le by simp
  qed
  show ?thesis
  proof (intro exI [of _ ?bs] conjI impI)
    show "sliced_requests n ids = Inr ?bs" by (rule eq)
    show "concat ?bs = ids" by (rule cat)
    show "\<forall>b \<in> set ?bs. b \<noteq> [] \<and> int (length b) \<le> n" by (rule each)
    show "length (filter (\<lambda>b. int (length b) < n) ?bs) \<le> 1" by (rule short)
    show "?bs = [ids]" if "int (length ids) \<le> n"
      using that by (rule one)
  qed
qed

theorem chunker_partition_witness:
  "[''101'', ''102'', ''103'', ''104'', ''105''] \<noteq> [] \<and> (0::int) < 2 \<and>
   (\<exists>batches. sliced_requests 2 [''101'', ''102'', ''103'', ''104'', ''105''] = Inr batches
           \<and> concat batches = [''101'', ''102'', ''103'', ''104'', ''105'']
           \<and> (\<forall>b \<in> set batches. b \<noteq> [] \<and> int (length b) \<le> 2)
           \<and> length (filter (\<lambda>b. int (length b) < 2) batches) \<le> 1
           \<and> (int (length [''101'', ''102'', ''103'', ''104'', ''105'']) \<le> 2
                \<longrightarrow> batches = [[''101'', ''102'', ''103'', ''104'', ''105'']]))"
  using chunker_partition [of "[''101'', ''102'', ''103'', ''104'', ''105'']" 2]
  by simp




section \<open>Properties of the IdentifierExtractor\<close>

















text \<open>
  Claim C9 as stated: a reference column with no usable value makes the extractor fail
  with an empty-input error. It fails: for a column of two missing values line 56
  returns the empty identifier list, and nothing in the script checks for it.
\<close>

theorem extractor_empty_counterexample:
  "requested_points [(''FromMwAnalogPointRef'', [NaN, NaN])] = Inr []"
  by (simp add: requested_points_def dropna_def)

text \<open>
  Claim C9, amended. For every identifier file whose reference column has no usable
  value after the missing rows are dropped, the extractor returns the empty identifier
  list without an error, and for every positive chunk size the Chunker then turns it
  into a single empty batch, so the run proceeds.
\<close>

theorem extractor_empty_proceeds:
  assumes "map_of df ''FromMwAnalogPointRef'' = Some col" and "dropna col = []" and "0 < n"
  shows "requested_points df = Inr [] \<and> sliced_requests n ([] :: string list) = Inr [[]]"
  using assms sliced_requests_empty [of n] by (simp add: requested_points_def)

theorem extractor_empty_proceeds_witness:
  "map_of [(''FromMwAnalogPointRef'', [NaN, NaN])] ''FromMwAnalogPointRef'' = Some [NaN, NaN]
   \<and> dropna [NaN, NaN] = [] \<and> (0::int) < 2
   \<and> requested_points [(''FromMwAnalogPointRef'', [NaN, NaN])] = Inr []
   \<and> sliced_requests 2 ([] :: string list) = Inr [[]]"
  using extractor_empty_proceeds [of "[(''FromMwAnalogPointRef'', [NaN, NaN])]" "[NaN, NaN]" 2]
  by (simp add: dropna_def)

section \<open>Properties of the timestamps\<close>











section \<open>Properties of the dispatch loop and of the run\<close>

lemma map_of_dict_set:
  "map_of (dict_set items key v) k = (if k = key then Some v else map_of items k)"
  by (induction items key v rule: dict_set.induct) auto

lemma queries_gets [simp]: "queries (map Http_get qs) = qs"
  by (induction qs) auto

lemma queries_append [simp]: "queries (evs @ evs') = queries evs @ queries evs'"
  by (induction evs rule: queries.induct) auto

lemma published_append [simp]: "published (evs @ evs') = (published evs \<or> published evs')"
  by (induction evs rule: published.induct) auto

lemma published_gets [simp]: "\<not> published (map Http_get qs)"
  by (induction qs) auto



lemma answer_fails:
  assumes "map_of ps ''start_time'' = Some W" and "map_of ps ''end_time'' = Some W"
    and "batch_fails answer"
  obtains err where "answer_table cfg ps answer = Inl err"
    "body_malformed answer \<longrightarrow>
       err = ValueError_no_data (W, W) (body_content answer) (config_path cfg)"
    "body_lacks_data answer \<longrightarrow> err = KeyError ''data''"
proof (cases answer)
  case (Inl err)
  then show ?thesis
    by (intro that [of err]) (simp_all add: answer_table_def body_malformed_def body_lacks_data_def)
next
  case (Inr r)
  note ans = this
  show ?thesis
  proof (cases "json r")
    case None
    then have "isr_response_data cfg ps r =
        Inl (ValueError_no_data (W, W) (content r) (config_path cfg))"
      using assms(1,2) by (simp add: isr_response_data_def dict_get_def)
    then show ?thesis
      using None ans
      by (intro that [of "ValueError_no_data (W, W) (content r) (config_path cfg)"])
        (simp_all add: answer_table_def body_malformed_def body_lacks_data_def body_content_def)
  next
    case (Some body)
    note js = this
    show ?thesis
    proof (cases body)
      case JOther
      then have "isr_response_data cfg ps r = Inl TypeError"
        using js by (simp add: isr_response_data_def)
      then show ?thesis
        using js JOther ans
        by (intro that [of TypeError])
          (simp_all add: answer_table_def body_malformed_def body_lacks_data_def)
    next
      case (JObject members)
      note ob = this
      show ?thesis
      proof (cases "map_of members ''data''")
        case None
        then have "isr_response_data cfg ps r = Inl (KeyError ''data'')"
          using js ob by (simp add: isr_response_data_def)
        then show ?thesis
          using js ob ans
          by (intro that [of "KeyError ''data''"])
            (simp_all add: answer_table_def body_malformed_def body_lacks_data_def)
      next
        case (Some data)
        then have d: "isr_response_data cfg ps r = Inr data"
          using js ob by (simp add: isr_response_data_def)
        have "data = JRejected"
          using assms(3) ans js ob Some
          by (cases data) (simp_all add: batch_fails_def)
        then show ?thesis
          using d js ob Some ans
          by (intro that [of ValueError])
            (simp_all add: answer_table_def body_malformed_def body_lacks_data_def)
      qed
    qed
  qed
qed

lemma answer_succeeds:
  assumes "\<not> batch_fails answer"
  obtains table where "answer_table cfg ps answer = Inr table"
proof (cases answer)
  case (Inl err)
  then show ?thesis using assms by (simp add: batch_fails_def)
next
  case (Inr r)
  note ans = this
  show ?thesis
  proof (cases "json r")
    case None
    then show ?thesis using assms ans by (simp add: batch_fails_def)
  next
    case (Some body)
    note js = this
    show ?thesis
    proof (cases body)
      case JOther
      then show ?thesis using assms ans js by (simp add: batch_fails_def)
    next
      case (JObject members)
      note ob = this
      show ?thesis
      proof (cases "map_of members ''data''")
        case None
        then show ?thesis using assms ans js ob by (simp add: batch_fails_def)
      next
        case (Some data)
        show ?thesis
        proof (cases data)
          case (JTable table)
          then have "answer_table cfg ps answer = Inr table"
            using ans js ob Some by (simp add: answer_table_def isr_response_data_def)
          then show ?thesis by (rule that)
        next
          case JRejected
          then show ?thesis using assms ans js ob Some by (simp add: batch_fails_def)
        qed
      qed
    qed
  qed
qed

lemma loop_body_cases:
  assumes "map_of (params st) ''start_time'' = Some W"
    and "map_of (params st) ''end_time'' = None \<or> map_of (params st) ''end_time'' = Some W"
  obtains q err where
      "map_of (query_params q) ''start_time'' = Some W"
      "map_of (query_params q) ''end_time'' = Some W"
      "map_of (query_params q) ''scada_point'' = Some (Seq points)"
      "endpoint q = db_api cfg"
      "batch_fails (api i q)"
      "loop_body cfg api i points st = Inl (err, events st @ [Http_get q])"
      "answer_table cfg (query_params q) (api i q) = Inl err"
  | q table where
      "map_of (query_params q) ''start_time'' = Some W"
      "map_of (query_params q) ''end_time'' = Some W"
      "map_of (query_params q) ''scada_point'' = Some (Seq points)"
      "endpoint q = db_api cfg"
      "\<not> batch_fails (api i q)"
      "loop_body cfg api i points st =
         Inr \<lparr>params = query_params q, results = results st @ [table],
              events = events st @ [Http_get q]\<rparr>"
proof -
  define params1 where "params1 = dict_set (params st) ''scada_point'' (Seq points)"
  define params2 where "params2 =
    (if map_of params1 ''end_time'' = None then dict_set params1 ''end_time'' W else params1)"
  define q where "q = \<lparr>endpoint = db_api cfg, query_params = params2\<rparr>"
  have p1: "map_of params1 ''start_time'' = Some W"
    "map_of params1 ''end_time'' = map_of (params st) ''end_time''"
    "map_of params1 ''scada_point'' = Some (Seq points)"
    using assms(1) by (simp_all add: params1_def map_of_dict_set)
  have p2: "map_of params2 ''start_time'' = Some W" "map_of params2 ''end_time'' = Some W"
    "map_of params2 ''scada_point'' = Some (Seq points)"
    using p1 assms(2) by (auto simp add: params2_def map_of_dict_set)
  have sel: "(if map_of params1 ''end_time'' = None
            then (case dict_get params1 ''start_time'' of
                    Inl err \<Rightarrow> Inl err
                  | Inr start \<Rightarrow> Inr (dict_set params1 ''end_time'' start))
            else Inr params1) = Inr params2"
    using p1 by (simp add: params2_def dict_get_def)
  have body: "loop_body cfg api i points st =
      (case answer_table cfg params2 (api i q) of
         Inl err \<Rightarrow> Inl (err, events st @ [Http_get q])
       | Inr table \<Rightarrow>
           Inr \<lparr>params = params2, results = results st @ [table],
                events = events st @ [Http_get q]\<rparr>)"
    unfolding loop_body_def Let_def params1_def [symmetric] sel q_def by simp
  have qp: "query_params q = params2" "endpoint q = db_api cfg"
    by (simp_all add: q_def)
  show ?thesis
  proof (cases "batch_fails (api i q)")
    case True
    with p2(1,2) obtain err where err:
      "answer_table cfg params2 (api i q) = Inl err"
      "body_malformed (api i q) \<longrightarrow>
         err = ValueError_no_data (W, W) (body_content (api i q)) (config_path cfg)"
      "body_lacks_data (api i q) \<longrightarrow> err = KeyError ''data''"
      by (rule answer_fails)
    from err(1) have "loop_body cfg api i points st = Inl (err, events st @ [Http_get q])"
      unfolding body by simp
    then show ?thesis
      using p2 qp(2) True err(1) unfolding qp(1) [symmetric] by (intro that(1) [of q err])
  next
    case False
    then obtain table where "answer_table cfg params2 (api i q) = Inr table"
      by (rule answer_succeeds)
    then have "loop_body cfg api i points st =
         Inr \<lparr>params = params2, results = results st @ [table],
              events = events st @ [Http_get q]\<rparr>"
      unfolding body by simp
    then show ?thesis
      using p2 qp(2) False unfolding qp(1) [symmetric] by (intro that(2) [of q table])
  qed
qed

lemma dispatch_trace:
  assumes "map_of (params st) ''start_time'' = Some W"
    and "map_of (params st) ''end_time'' = None \<or> map_of (params st) ''end_time'' = Some W"
  shows "case dispatch cfg api i batches st of
      Inr st' \<Rightarrow>
        (\<exists>qs. events st' = events st @ map Http_get qs
           \<and> length qs = length batches
           \<and> length (results st') = length (results st) + length batches
           \<and> (\<forall>q \<in> set qs. map_of (query_params q) ''start_time'' = Some W
                  \<and> map_of (query_params q) ''end_time'' = Some W)
           \<and> (\<forall>k < length qs. \<not> batch_fails (api (i + k) (qs ! k))))
    | Inl (err, sent) \<Rightarrow>
        (\<exists>qs q. sent = events st @ map Http_get (qs @ [q])
           \<and> length qs < length batches
           \<and> (\<forall>q \<in> set (qs @ [q]). map_of (query_params q) ''start_time'' = Some W
                  \<and> map_of (query_params q) ''end_time'' = Some W)
           \<and> (\<forall>k < length qs. \<not> batch_fails (api (i + k) (qs ! k)))
           \<and> batch_fails (api (i + length qs) q)
           \<and> answer_table cfg (query_params q) (api (i + length qs) q) = Inl err)"
  using assms
proof (induction batches arbitrary: i st)
  case Nil
  show ?case by simp
next
  case (Cons points rest)
  from Cons.prems show ?case
  proof (cases rule: loop_body_cases [where cfg = cfg and api = api and i = i and points = points])
    case (1 q err)
    have "dispatch cfg api i (points # rest) st = Inl (err, events st @ map Http_get ([] @ [q]))"
      using 1(6) by simp
    moreover have "\<forall>q' \<in> set ([] @ [q]). map_of (query_params q') ''start_time'' = Some W
                  \<and> map_of (query_params q') ''end_time'' = Some W"
      using 1(1,2) by simp
    ultimately show ?thesis
      using 1(5,7) by (simp del: append.simps)
  next
    case (2 q table)
    define st1 where "st1 = \<lparr>params = query_params q, results = results st @ [table],
        events = events st @ [Http_get q]\<rparr>"
    have step: "dispatch cfg api i (points # rest) st = dispatch cfg api (Suc i) rest st1"
      using 2(6) by (simp add: st1_def)
    have st1: "map_of (params st1) ''start_time'' = Some W"
      "map_of (params st1) ''end_time'' = None \<or> map_of (params st1) ''end_time'' = Some W"
      "events st1 = events st @ [Http_get q]" "results st1 = results st @ [table]"
      using 2(1,2) by (simp_all add: st1_def)
    note IH = Cons.IH [OF st1(1,2), of "Suc i"]
    show ?thesis
    proof (cases "dispatch cfg api (Suc i) rest st1")
      case (Inr st')
      from IH have "\<exists>qs. events st' = events st1 @ map Http_get qs
           \<and> length qs = length rest
           \<and> length (results st') = length (results st1) + length rest
           \<and> (\<forall>q \<in> set qs. map_of (query_params q) ''start_time'' = Some W
                  \<and> map_of (query_params q) ''end_time'' = Some W)
           \<and> (\<forall>k < length qs. \<not> batch_fails (api (Suc i + k) (qs ! k)))"
        unfolding Inr by (simp only: sum.case)
      then obtain qs where qs: "events st' = events st1 @ map Http_get qs
           \<and> length qs = length rest
           \<and> length (results st') = length (results st1) + length rest
           \<and> (\<forall>q \<in> set qs. map_of (query_params q) ''start_time'' = Some W
                  \<and> map_of (query_params q) ''end_time'' = Some W)
           \<and> (\<forall>k < length qs. \<not> batch_fails (api (Suc i + k) (qs ! k)))" ..
      have nf: "\<not> batch_fails (api (i + k) ((q # qs) ! k))" if "k < length (q # qs)" for k
      proof (cases k)
        case 0
        then show ?thesis using 2(5) by simp
      next
        case (Suc k')
        then have "k' < length qs" using that by simp
        with qs have "\<not> batch_fails (api (Suc i + k') (qs ! k'))" by blast
        then show ?thesis using Suc by simp
      qed
      have "\<exists>qs'. events st' = events st @ map Http_get qs'
           \<and> length qs' = length (points # rest)
           \<and> length (results st') = length (results st) + length (points # rest)
           \<and> (\<forall>q \<in> set qs'. map_of (query_params q) ''start_time'' = Some W
                  \<and> map_of (query_params q) ''end_time'' = Some W)
           \<and> (\<forall>k < length qs'. \<not> batch_fails (api (i + k) (qs' ! k)))"
      proof (intro exI [of _ "q # qs"] conjI allI impI)
        show "events st' = events st @ map Http_get (q # qs)"
          using qs st1(3) by simp
        show "length (q # qs) = length (points # rest)"
          using qs by simp
        show "length (results st') = length (results st) + length (points # rest)"
          using qs st1(4) by simp
        show "\<forall>q' \<in> set (q # qs). map_of (query_params q') ''start_time'' = Some W
                  \<and> map_of (query_params q') ''end_time'' = Some W"
          using qs 2(1,2) by simp
        show "\<not> batch_fails (api (i + k) ((q # qs) ! k))" if "k < length (q # qs)" for k
          using that by (rule nf)
      qed
      then show ?thesis
        unfolding step Inr by (simp only: sum.case)
    next
      case (Inl failure)
      obtain err sent where failure: "failure = (err, sent)" by (cases failure)
      let ?P = "\<lambda>i0 qs q'. (\<forall>q \<in> set (qs @ [q']). map_of (query_params q) ''start_time'' = Some W
                  \<and> map_of (query_params q) ''end_time'' = Some W)
           \<and> (\<forall>k < length qs. \<not> batch_fails (api (i0 + k) (qs ! k)))
           \<and> batch_fails (api (i0 + length qs) q')
           \<and> answer_table cfg (query_params q') (api (i0 + length qs) q') = Inl err"
      from IH have "\<exists>qs q'. sent = events st1 @ map Http_get (qs @ [q'])
           \<and> length qs < length rest \<and> ?P (Suc i) qs q'"
        unfolding Inl failure by (simp only: sum.case prod.case)
      then obtain qs where "\<exists>q'. sent = events st1 @ map Http_get (qs @ [q'])
           \<and> length qs < length rest \<and> ?P (Suc i) qs q'" ..
      then obtain q' where qs0: "sent = events st1 @ map Http_get (qs @ [q'])
           \<and> length qs < length rest \<and> ?P (Suc i) qs q'" ..
      note qs = qs0 [THEN conjunct1] qs0 [THEN conjunct2, THEN conjunct1]
        qs0 [THEN conjunct2, THEN conjunct2]
      have nf: "\<not> batch_fails (api (i + k) ((q # qs) ! k))" if "k < length (q # qs)" for k
      proof (cases k)
        case 0
        then show ?thesis using 2(5) by simp
      next
        case (Suc k')
        then have "k' < length qs" using that by simp
        with qs(3) have "\<not> batch_fails (api (Suc i + k') (qs ! k'))" by blast
        then show ?thesis using Suc by simp
      qed
      have d: "i + length (q # qs) = Suc i + length qs" by simp
      have "?P i (q # qs) q'"
      proof (intro conjI allI impI)
        show "\<forall>q'' \<in> set ((q # qs) @ [q']). map_of (query_params q'') ''start_time'' = Some W
                  \<and> map_of (query_params q'') ''end_time'' = Some W"
          using qs(3) 2(1,2) by simp
        show "\<not> batch_fails (api (i + k) ((q # qs) ! k))" if "k < length (q # qs)" for k
          using that by (rule nf)
        show "batch_fails (api (i + length (q # qs)) q')"
          unfolding d using qs(3) by blast
        show "answer_table cfg (query_params q') (api (i + length (q # qs)) q') = Inl err"
          unfolding d using qs(3) by blast
      qed
      moreover have "sent = events st @ map Http_get ((q # qs) @ [q'])"
        using qs(1) st1(3) by simp
      moreover have "length (q # qs) < length (points # rest)"
        using qs(2) by simp
      ultimately have "sent = events st @ map Http_get ((q # qs) @ [q'])
           \<and> length (q # qs) < length (points # rest) \<and> ?P i (q # qs) q'"
        by (rule_tac conjI [OF _ conjI])
      then have "\<exists>qs q'. sent = events st @ map Http_get (qs @ [q'])
           \<and> length qs < length (points # rest) \<and> ?P i qs q'"
        by (intro exI)
      then show ?thesis
        unfolding step Inl failure by (simp only: sum.case prod.case)
    qed
  qed
qed

lemma run_cases:
  fixes cfg :: config and w :: world
  obtains
    (early) err where "run cfg w = (Inl err, [])"
  | (aborted) W err qs q where
      "start_time (utcnow w 0) (timedelta cfg) = Inr W"
      "run cfg w = (Inl err, map Http_get (qs @ [q]))"
      "\<forall>q \<in> set (qs @ [q]). map_of (query_params q) ''start_time'' = Some (Str W)
          \<and> map_of (query_params q) ''end_time'' = Some (Str W)"
      "\<forall>k < length qs. \<not> batch_fails (isr_api w k (qs ! k))"
      "batch_fails (isr_api w (length qs) q)"
      "answer_table cfg (query_params q) (isr_api w (length qs) q) = Inl err"
  | (merge_failed) W err qs where
      "start_time (utcnow w 0) (timedelta cfg) = Inr W"
      "run cfg w = (Inl err, map Http_get qs)"
      "\<forall>q \<in> set qs. map_of (query_params q) ''start_time'' = Some (Str W)
          \<and> map_of (query_params q) ''end_time'' = Some (Str W)"
      "\<forall>k < length qs. \<not> batch_fails (isr_api w k (qs ! k))"
  | (uploaded) W outcome qs u where
      "start_time (utcnow w 0) (timedelta cfg) = Inr W"
      "run cfg w = (outcome, map Http_get qs @ [Http_put u])"
      "\<forall>q \<in> set qs. map_of (query_params q) ''start_time'' = Some (Str W)
          \<and> map_of (query_params q) ''end_time'' = Some (Str W)"
      "\<forall>k < length qs. \<not> batch_fails (isr_api w k (qs ! k))"
proof (cases "source_file w")
  case (Inl err)
  then have "run cfg w = (Inl err, [])" by (simp add: run_def)
  then show ?thesis by (rule early)
next
  case df: (Inr df)
  show ?thesis
  proof (cases "requested_points df")
    case (Inl err)
    then have "run cfg w = (Inl err, [])" using df by (simp add: run_def)
    then show ?thesis by (rule early)
  next
    case points: (Inr points)
    show ?thesis
    proof (cases "sliced_requests (chunk_size cfg) points")
      case (Inl err)
      then have "run cfg w = (Inl err, [])" using df points by (simp add: run_def)
      then show ?thesis by (rule early)
    next
      case batches: (Inr batches)
      show ?thesis
      proof (cases "start_time (utcnow w 0) (timedelta cfg)")
        case (Inl err)
        then have "run cfg w = (Inl err, [])" using df points batches by (simp add: run_def)
        then show ?thesis by (rule early)
      next
        case start: (Inr W)
        define st0 where "st0 = \<lparr>params = [(''start_time'', Str W)], results = [], events = []\<rparr>"
        have st0: "map_of (params st0) ''start_time'' = Some (Str W)"
          "map_of (params st0) ''end_time'' = None \<or> map_of (params st0) ''end_time'' = Some (Str W)"
          "events st0 = []"
          by (simp_all add: st0_def)
        note trace = dispatch_trace [OF st0(1,2), where cfg = cfg and api = "isr_api w" and i = 0
            and batches = batches]
        have run: "run cfg w =
          (case dispatch cfg (isr_api w) 0 batches st0 of
             Inl (err, sent) \<Rightarrow> (Inl err, sent)
           | Inr st \<Rightarrow>
               (case endresult (tz_database w) (results st) of
                  Inl err \<Rightarrow> (Inl err, events st)
                | Inr table \<Rightarrow>
                    let upload = \<lparr>upload_to = upload_path cfg, upload_branch = branch cfg,
                                    commit_time = utcnow w 1, upload_content = table\<rparr>;
                        sent = events st @ [Http_put upload]
                    in (case upload_api w upload of
                          Some err \<Rightarrow> (Inl err, sent)
                        | None \<Rightarrow> (Inr table, sent))))"
          using df points batches start by (simp add: run_def st0_def)
        show ?thesis
        proof (cases "dispatch cfg (isr_api w) 0 batches st0")
          case (Inl failure)
          obtain err sent where failure: "failure = (err, sent)" by (cases failure)
          let ?P = "\<lambda>qs q. sent = events st0 @ map Http_get (qs @ [q])
               \<and> length qs < length batches
               \<and> (\<forall>q \<in> set (qs @ [q]). map_of (query_params q) ''start_time'' = Some (Str W)
                      \<and> map_of (query_params q) ''end_time'' = Some (Str W))
               \<and> (\<forall>k < length qs. \<not> batch_fails (isr_api w (0 + k) (qs ! k)))
               \<and> batch_fails (isr_api w (0 + length qs) q)
               \<and> answer_table cfg (query_params q) (isr_api w (0 + length qs) q) = Inl err"
          from trace have "\<exists>qs q. ?P qs q"
            unfolding Inl failure by (simp only: sum.case prod.case)
          then obtain qs where "\<exists>q. ?P qs q" ..
          then obtain q where P: "?P qs q" ..
          have "run cfg w = (Inl err, map Http_get (qs @ [q]))"
            unfolding run Inl failure using P st0(3) by simp
          then show ?thesis
            using P start by (intro aborted [of W err qs q]) simp_all
        next
          case (Inr st)
          let ?P = "\<lambda>qs. events st = events st0 @ map Http_get qs
               \<and> length qs = length batches
               \<and> length (results st) = length (results st0) + length batches
               \<and> (\<forall>q \<in> set qs. map_of (query_params q) ''start_time'' = Some (Str W)
                      \<and> map_of (query_params q) ''end_time'' = Some (Str W))
               \<and> (\<forall>k < length qs. \<not> batch_fails (isr_api w (0 + k) (qs ! k)))"
          from trace have "\<exists>qs. ?P qs"
            unfolding Inr by (simp only: sum.case)
          then obtain qs where P: "?P qs" ..
          then have ev: "events st = map Http_get qs" using st0(3) by simp
          show ?thesis
          proof (cases "endresult (tz_database w) (results st)")
            case (Inl err)
            then have "run cfg w = (Inl err, map Http_get qs)"
              unfolding run Inr using ev by simp
            then show ?thesis
              using P start by (intro merge_failed [of W err qs]) simp_all
          next
            case table: (Inr table)
            define u where "u = \<lparr>upload_to = upload_path cfg, upload_branch = branch cfg,
                commit_time = utcnow w 1, upload_content = table\<rparr>"
            have "\<exists>outcome. run cfg w = (outcome, map Http_get qs @ [Http_put u])"
              unfolding run Inr using ev table by (cases "upload_api w u") (simp_all add: u_def)
            then obtain outcome where "run cfg w = (outcome, map Http_get qs @ [Http_put u])" ..
            then show ?thesis
              using P start by (intro uploaded [of W outcome qs u]) simp_all
          qed
        qed
      qed
    qed
  qed
qed

lemma example_batches:
  "sliced_requests 2 [''101'', ''102'', ''103'', ''104'', ''105'']
     = Inr [[''101'', ''102''], [''103'', ''104''], [''105'']]"
  by code_simp


lemma example_points:
  "requested_points [(''FromMwAnalogPointRef'', [Int64 101, Int64 102, Int64 103, Int64 104, Int64 105])]
     = Inr [''101'', ''102'', ''103'', ''104'', ''105'']"
  by code_simp

lemma run_unparsable_1:
  "run example_config (nth_unparsable 1) =
     (Inl (ValueError_no_data (Str ''2024-01-15T10:05:00'', Str ''2024-01-15T10:05:00'')
             ''<html>Bad Gateway</html>'' ''settings.cfg''),
      [Http_get (example_query [''101'', ''102'']), Http_get (example_query [''103'', ''104''])])"
  by code_simp




lemma run_example:
  "run example_config example_world =
     (Inr \<lparr>index = [''2024-01-15T12:05:00''], index_name = Some ''Europe/Tallinn'',
           columns = [(''101'', [Int64 0]), (''102'', [Int64 0]), (''103'', [Int64 1]),
                      (''104'', [Int64 1]), (''105'', [Int64 2])]\<rparr>,
      [Http_get (example_query [''101'', ''102'']), Http_get (example_query [''103'', ''104'']),
       Http_get (example_query [''105'']),
       Http_put \<lparr>upload_to = ''data/out.csv'', upload_branch = ''main'',
                 commit_time = 1705313287000000,
                 upload_content = \<lparr>index = [''2024-01-15T12:05:00''], index_name = Some ''Europe/Tallinn'',
           columns = [(''101'', [Int64 0]), (''102'', [Int64 0]), (''103'', [Int64 1]),
                      (''104'', [Int64 1]), (''105'', [Int64 2])]\<rparr>\<rparr>])"
  by code_simp

lemma run_failure_cases:
  assumes "k < length (dispatched cfg w)" and "batch_fails (dispatch_answer cfg w k)"
  obtains W err qs q where
      "start_time (utcnow w 0) (timedelta cfg) = Inr W"
      "run cfg w = (Inl err, map Http_get (qs @ [q]))"
      "k = length qs"
      "map_of (query_params q) ''start_time'' = Some (Str W)"
      "map_of (query_params q) ''end_time'' = Some (Str W)"
      "answer_table cfg (query_params q) (isr_api w k q) = Inl err"
proof (cases rule: run_cases [of cfg w])
  case (early err)
  then show ?thesis using assms(1) by (simp add: dispatched_def)
next
  case (aborted W err qs q)
  have d: "dispatched cfg w = qs @ [q]"
    using aborted(2) by (simp add: dispatched_def)
  have "k = length qs"
  proof (rule ccontr)
    assume "k \<noteq> length qs"
    then have "k < length qs" using assms(1) d by simp
    then have "\<not> batch_fails (isr_api w k (qs ! k))" "dispatched cfg w ! k = qs ! k"
      using aborted(4) d by (simp_all add: nth_append)
    then show False using assms(2) by (simp add: dispatch_answer_def)
  qed
  then show ?thesis
    using aborted by (intro that [of W err qs q]) simp_all
next
  case (merge_failed W err qs)
  have d: "dispatched cfg w = qs"
    using merge_failed(2) by (simp add: dispatched_def)
  then have "\<not> batch_fails (isr_api w k (qs ! k))"
    using merge_failed(4) assms(1) by simp
  then show ?thesis using assms(2) d by (simp add: dispatch_answer_def)
next
  case (uploaded W outcome qs u)
  have d: "dispatched cfg w = qs"
    using uploaded(2) by (simp add: dispatched_def)
  then have "\<not> batch_fails (isr_api w k (qs ! k))"
    using uploaded(4) assms(1) by simp
  then show ?thesis using assms(2) d by (simp add: dispatch_answer_def)
qed

text \<open>
  Claim C6. When the answer to some dispatched query fails (the \<open>k\<close>-th, counted from 0),
  the run ends with an error, which is the exception that lines 84-93 raise on that
  answer; that query is the last one dispatched; the events of the run are its queries
  and nothing else, so nothing is uploaded. No table is returned: the results fetched
  before are lost with the run, and the merge of line 96 is never reached.
\<close>

theorem dispatch_failure_aborts_run:
  assumes "k < length (dispatched cfg w)" and "batch_fails (dispatch_answer cfg w k)"
  shows "(\<exists>err. outcome cfg w = Inl err
            \<and> answer_table cfg (query_params (dispatched cfg w ! k)) (dispatch_answer cfg w k) = Inl err)
       \<and> length (dispatched cfg w) = Suc k
       \<and> snd (run cfg w) = map Http_get (dispatched cfg w)
       \<and> \<not> published (snd (run cfg w))"
  using assms
proof (cases rule: run_failure_cases)
  case (1 W err qs q)
  have d: "dispatched cfg w = qs @ [q]" "dispatched cfg w ! k = q"
    using 1(2,3) by (simp_all add: dispatched_def)
  have "outcome cfg w = Inl err" using 1(2) by (simp add: outcome_def)
  moreover have "answer_table cfg (query_params (dispatched cfg w ! k)) (dispatch_answer cfg w k) = Inl err"
    using 1(6) d(2) by (simp add: dispatch_answer_def)
  moreover have "length (dispatched cfg w) = Suc k" using d(1) 1(3) by simp
  moreover have "snd (run cfg w) = map Http_get (dispatched cfg w)"
    using 1(2) d(1) by simp
  moreover have "\<not> published (snd (run cfg w))"
    unfolding 1(2) snd_conv by (rule published_gets)
  ultimately show ?thesis by blast
qed

theorem dispatch_failure_aborts_run_witness:
  "1 < length (dispatched example_config (nth_unparsable 1))
   \<and> batch_fails (dispatch_answer example_config (nth_unparsable 1) 1)
   \<and> (\<exists>err. outcome example_config (nth_unparsable 1) = Inl err
          \<and> answer_table example_config
               (query_params (dispatched example_config (nth_unparsable 1) ! 1))
               (dispatch_answer example_config (nth_unparsable 1) 1) = Inl err)
   \<and> length (dispatched example_config (nth_unparsable 1)) = Suc 1
   \<and> snd (run example_config (nth_unparsable 1))
        = map Http_get (dispatched example_config (nth_unparsable 1))
   \<and> \<not> published (snd (run example_config (nth_unparsable 1)))"
proof -
  have d: "dispatched example_config (nth_unparsable 1)
      = [example_query [''101'', ''102''], example_query [''103'', ''104'']]"
    unfolding dispatched_def run_unparsable_1 by simp
  have "1 < length (dispatched example_config (nth_unparsable 1))"
    unfolding d by simp
  moreover have "batch_fails (dispatch_answer example_config (nth_unparsable 1) 1)"
    unfolding dispatch_answer_def d
    by (simp add: nth_unparsable_def unparsable_answer_def batch_fails_def)
  ultimately show ?thesis
    using dispatch_failure_aborts_run [of 1 example_config "nth_unparsable 1"] by simp
qed

lemma run_clock:
  assumes "clock 0 = utcnow w 0"
  shows "queries (snd (run cfg (w\<lparr>utcnow := clock\<rparr>))) = queries (snd (run cfg w))"
proof (cases "source_file w")
  case (Inl err)
  then show ?thesis by (simp add: run_def)
next
  case df: (Inr df)
  show ?thesis
  proof (cases "requested_points df")
    case (Inl err)
    then show ?thesis using df by (simp add: run_def)
  next
    case points: (Inr points)
    show ?thesis
    proof (cases "sliced_requests (chunk_size cfg) points")
      case (Inl err)
      then show ?thesis using df points by (simp add: run_def)
    next
      case batches: (Inr batches)
      show ?thesis
      proof (cases "start_time (utcnow w 0) (timedelta cfg)")
        case (Inl err)
        then show ?thesis using df points batches assms by (simp add: run_def)
      next
        case start: (Inr W)
        show ?thesis
        proof (cases "dispatch cfg (isr_api w) 0 batches
             \<lparr>params = [(''start_time'', Str W)], results = [], events = []\<rparr>")
          case (Inl failure)
          then show ?thesis using df points batches start assms
            by (cases failure) (simp add: run_def)
        next
          case st: (Inr st)
          show ?thesis
          proof (cases "endresult (tz_database w) (results st)")
            case (Inl err)
            then show ?thesis using df points batches start st assms by (simp add: run_def)
          next
            case (Inr table)
            then show ?thesis using df points batches start st assms
              by (simp add: run_def Let_def split: option.split)
          qed
        qed
      qed
    qed
  qed
qed

lemma dispatched_clock:
  "clock 0 = utcnow w 0 \<Longrightarrow> dispatched cfg (w\<lparr>utcnow := clock\<rparr>) = dispatched cfg w"
  unfolding dispatched_def by (rule run_clock)

lemma run_window:
  obtains W where
    "\<forall>q \<in> set (dispatched cfg w). map_of (query_params q) ''start_time'' = Some (Str W)
        \<and> map_of (query_params q) ''end_time'' = Some (Str W)"
    "dispatched cfg w \<noteq> [] \<longrightarrow> start_time (utcnow w 0) (timedelta cfg) = Inr W"
proof (cases rule: run_cases [of cfg w])
  case (early err)
  then have "dispatched cfg w = []" by (simp add: dispatched_def)
  then show ?thesis by (intro that [of "[]"]) simp_all
next
  case (aborted W err qs q)
  then have "dispatched cfg w = qs @ [q]" by (simp add: dispatched_def)
  then show ?thesis using aborted(1,3) by (intro that [of W]) simp_all
next
  case (merge_failed W err qs)
  then have "dispatched cfg w = qs" by (simp add: dispatched_def)
  then show ?thesis using merge_failed(1,3) by (intro that [of W]) simp_all
next
  case (uploaded W outcome qs u)
  then have "dispatched cfg w = qs" by (simp add: dispatched_def)
  then show ?thesis using uploaded(1,3) by (intro that [of W]) simp_all
qed

text \<open>
  Claim C3. In every run there is one text \<open>W\<close>, the start time computed from the first
  reading of the clock (line 64), such that every dispatched query carries \<open>W\<close> both as
  \<^verbatim>\<open>start_time\<close> and as \<^verbatim>\<open>end_time\<close>; so query \<open>N\<close> and query \<open>N + 1\<close> have the same
  window. The queries do not depend on any later reading of the clock: a run whose
  clock differs only after the first reading dispatches the same queries.
\<close>

theorem time_window_shared:
  "\<exists>W. (\<forall>q \<in> set (dispatched cfg w). map_of (query_params q) ''start_time'' = Some (Str W)
             \<and> map_of (query_params q) ''end_time'' = Some (Str W))
      \<and> (dispatched cfg w \<noteq> [] \<longrightarrow> start_time (utcnow w 0) (timedelta cfg) = Inr W)
      \<and> (\<forall>clock. clock 0 = utcnow w 0
            \<longrightarrow> dispatched cfg (w\<lparr>utcnow := clock\<rparr>) = dispatched cfg w)"
proof -
  obtain W where
    "\<forall>q \<in> set (dispatched cfg w). map_of (query_params q) ''start_time'' = Some (Str W)
        \<and> map_of (query_params q) ''end_time'' = Some (Str W)"
    "dispatched cfg w \<noteq> [] \<longrightarrow> start_time (utcnow w 0) (timedelta cfg) = Inr W"
    by (rule run_window)
  moreover have "\<forall>clock. clock 0 = utcnow w 0
      \<longrightarrow> dispatched cfg (w\<lparr>utcnow := clock\<rparr>) = dispatched cfg w"
    by (simp add: dispatched_clock)
  ultimately show ?thesis by blast
qed

lemma dispatched_example:
  "dispatched example_config example_world =
     [example_query [''101'', ''102''], example_query [''103'', ''104''], example_query [''105'']]"
  unfolding dispatched_def run_example by simp

theorem time_window_shared_witness:
  "example_query [''103'', ''104''] \<in> set (dispatched example_config example_world)
   \<and> dispatched example_config example_world \<noteq> []
   \<and> start_time (utcnow example_world 0) (timedelta example_config) = Inr ''2024-01-15T10:05:00''
   \<and> map_of (query_params (example_query [''103'', ''104''])) ''start_time''
        = Some (Str ''2024-01-15T10:05:00'')
   \<and> map_of (query_params (example_query [''103'', ''104''])) ''end_time''
        = Some (Str ''2024-01-15T10:05:00'')
   \<and> (\<lambda>k. if k = 0 then 1705313280000000 else 1705399999000000) 0 = utcnow example_world 0
   \<and> dispatched example_config
        (example_world\<lparr>utcnow := \<lambda>k. if k = 0 then 1705313280000000 else 1705399999000000\<rparr>)
        = dispatched example_config example_world"
proof -
  let ?clock = "\<lambda>k::nat. if k = 0 then 1705313280000000 else (1705399999000000::int)"
  let ?q = "example_query [''103'', ''104'']"
  have mem: "?q \<in> set (dispatched example_config example_world)"
    unfolding dispatched_example by simp
  have ne: "dispatched example_config example_world \<noteq> []"
    unfolding dispatched_example by simp
  have clock: "?clock 0 = utcnow example_world 0"
    by (simp add: example_world_def)
  from time_window_shared [of example_config example_world] obtain W where W:
    "(\<forall>q \<in> set (dispatched example_config example_world).
        map_of (query_params q) ''start_time'' = Some (Str W)
        \<and> map_of (query_params q) ''end_time'' = Some (Str W))
     \<and> (dispatched example_config example_world \<noteq> []
        \<longrightarrow> start_time (utcnow example_world 0) (timedelta example_config) = Inr W)
     \<and> (\<forall>clock. clock 0 = utcnow example_world 0
        \<longrightarrow> dispatched example_config (example_world\<lparr>utcnow := clock\<rparr>)
            = dispatched example_config example_world)" ..
  note W1 = W [THEN conjunct1] and W2 = W [THEN conjunct2, THEN conjunct1]
    and W3 = W [THEN conjunct2, THEN conjunct2]
  from W1 mem have q: "map_of (query_params ?q) ''start_time'' = Some (Str W)
        \<and> map_of (query_params ?q) ''end_time'' = Some (Str W)"
    by (rule bspec)
  have "map_of (query_params ?q) ''start_time'' = Some (Str ''2024-01-15T10:05:00'')"
    by (simp add: example_query_def)
  with q have eq: "W = ''2024-01-15T10:05:00''" by simp
  from W2 ne have "start_time (utcnow example_world 0) (timedelta example_config) = Inr W"
    by (rule mp)
  then have c3: "start_time (utcnow example_world 0) (timedelta example_config)
      = Inr ''2024-01-15T10:05:00''"
    unfolding eq .
  from W3 have "?clock 0 = utcnow example_world 0
        \<longrightarrow> dispatched example_config (example_world\<lparr>utcnow := ?clock\<rparr>)
            = dispatched example_config example_world"
    by (rule spec)
  from this clock have c7: "dispatched example_config (example_world\<lparr>utcnow := ?clock\<rparr>)
            = dispatched example_config example_world"
    by (rule mp)
  show ?thesis
    using mem ne c3 q [unfolded eq] clock c7 by (intro conjI) simp_all
qed




section \<open>Properties of the time window\<close>












end
